theory Spec2Isabelle
  imports Main
begin

section \<open>Strings of the front-end\<close>

text \<open>
  A string of the program is a sequence of code units, modelled as a \<open>string\<close>: every
  \<open>char\<close> is the code unit of that number, so the model covers the code units
  \<open>0x00\<close> to \<open>0xFF\<close>. The two predicates below list the code units of that range
  that ECMAScript counts as white space (TAB, LF, VT, FF, CR, SP, NBSP) and as line
  terminators (LF, CR).
\<close>

definition isLineTerminator :: "char \<Rightarrow> bool" where
  "isLineTerminator c = (c = CHR 0x0A \<or> c = CHR 0x0D)"

definition isWhiteSpace :: "char \<Rightarrow> bool" where
  "isWhiteSpace c =
     (c = CHR 0x09 \<or> c = CHR 0x0A \<or> c = CHR 0x0B \<or> c = CHR 0x0C \<or> c = CHR 0x0D \<or>
      c = CHR 0x20 \<or> c = CHR 0xA0)"

text \<open>\<open>String.prototype.trim\<close>: white space is removed from both ends.\<close>

definition trim :: "string \<Rightarrow> string" where
  "trim s = rev (dropWhile isWhiteSpace (rev (dropWhile isWhiteSpace s)))"

section \<open>The regular expressions of the citation scan\<close>

text \<open>
  The two patterns of \<open>submitQuery\<close>, \<^verbatim>\<open>/\(Source: .*?id:(.*?)\)/g\<close> and
  \<^verbatim>\<open>/id:(.*?)\)/\<close>, are sequences of three kinds of item: a literal character,
  the lazy \<^verbatim>\<open>.*?\<close> and the lazy \<^verbatim>\<open>(.*?)\<close> inside a capture group.
  \<open>rx_match\<close> is the backtracking matcher of ECMAScript on such a sequence, anchored at
  the head of the input: a lazy item first tries the rest of the pattern on the input as
  it is, and only when that fails consumes one more character, which must not be a line
  terminator. The result is the matched text with the captures in order.
\<close>

datatype rx_item = Lit char | Dots | CapDots

fun rx_match :: "rx_item list \<Rightarrow> string \<Rightarrow> (string \<times> string list) option" where
  "rx_match [] s = Some ([], [])"
| "rx_match (Lit c # r) [] = None"
| "rx_match (Lit c # r) (x # xs) =
     (if x = c
      then (case rx_match r xs of None \<Rightarrow> None | Some (m, g) \<Rightarrow> Some (x # m, g))
      else None)"
| "rx_match (Dots # r) [] = rx_match r []"
| "rx_match (Dots # r) (x # xs) =
     (case rx_match r (x # xs) of
        Some res \<Rightarrow> Some res
      | None \<Rightarrow>
          if isLineTerminator x then None
          else (case rx_match (Dots # r) xs of
                  None \<Rightarrow> None
                | Some (m, g) \<Rightarrow> Some (x # m, g)))"
| "rx_match (CapDots # r) [] =
     (case rx_match r [] of None \<Rightarrow> None | Some (m, g) \<Rightarrow> Some (m, [] # g))"
| "rx_match (CapDots # r) (x # xs) =
     (case rx_match r (x # xs) of
        Some (m, g) \<Rightarrow> Some (m, [] # g)
      | None \<Rightarrow>
          if isLineTerminator x then None
          else (case rx_match (CapDots # r) xs of
                  Some (m, c # g) \<Rightarrow> Some (x # m, (x # c) # g)
                | _ \<Rightarrow> None))"

text \<open>
  \<open>rx_exec\<close> is the search of a pattern without the \<open>g\<close> flag: the match at the
  leftmost position where the pattern matches.
\<close>

fun rx_exec :: "rx_item list \<Rightarrow> string \<Rightarrow> (string \<times> string list) option" where
  "rx_exec r [] = rx_match r []"
| "rx_exec r (x # xs) =
     (case rx_match r (x # xs) of Some res \<Rightarrow> Some res | None \<Rightarrow> rx_exec r xs)"

text \<open>
  \<open>rx_scan\<close> is the repeated search of a pattern with the \<open>g\<close> flag: the matches from
  left to right, each search starting where the previous match ended (one position
  further after an empty match). The number is the count of characters of the input
  that the previous match still covers.
\<close>

fun rx_scan :: "rx_item list \<Rightarrow> nat \<Rightarrow> string \<Rightarrow> (string \<times> string list) list" where
  "rx_scan r k [] =
     (if k = 0 then (case rx_match r [] of None \<Rightarrow> [] | Some res \<Rightarrow> [res]) else [])"
| "rx_scan r (Suc k) (x # xs) = rx_scan r k xs"
| "rx_scan r 0 (x # xs) =
     (case rx_match r (x # xs) of
        None \<Rightarrow> rx_scan r 0 xs
      | Some (m, g) \<Rightarrow> (m, g) # rx_scan r (length m - 1) xs)"

text \<open>
  \<open>String.prototype.match\<close>: with a global pattern the array of the matched texts, or
  \<open>null\<close> when there is none; with a pattern that is not global the array of the first
  match, the matched text followed by its captures, or \<open>null\<close>.
\<close>

definition match_global :: "string \<Rightarrow> rx_item list \<Rightarrow> string list option" where
  "match_global s r = (case rx_scan r 0 s of [] \<Rightarrow> None | ms \<Rightarrow> Some (map fst ms))"

definition match_first :: "string \<Rightarrow> rx_item list \<Rightarrow> string list option" where
  "match_first s r = (case rx_exec r s of None \<Rightarrow> None | Some (m, g) \<Rightarrow> Some (m # g))"

text \<open>\<^verbatim>\<open>/\(Source: .*?id:(.*?)\)/g\<close> and \<^verbatim>\<open>/id:(.*?)\)/\<close>.\<close>

definition source_pattern :: "rx_item list" where
  "source_pattern =
     map Lit ''(Source: '' @ [Dots] @ map Lit ''id:'' @ [CapDots] @ [Lit (CHR '')'')]"

definition id_pattern :: "rx_item list" where
  "id_pattern = map Lit ''id:'' @ [CapDots] @ [Lit (CHR '')'')]"

text \<open>
  \<open>new Set(xs)\<close> spread into an array: the elements of \<open>xs\<close> in the order of their
  first insertion.
\<close>

definition Set_add :: "'a list \<Rightarrow> 'a \<Rightarrow> 'a list" where
  "Set_add acc x = (if x \<in> set acc then acc else acc @ [x])"

definition new_Set :: "'a list \<Rightarrow> 'a list" where
  "new_Set xs = foldl Set_add [] xs"

section \<open>The API client\<close>

text \<open>\<open>KnowledgeBaseService\<close>: the fixed base address and the download address.\<close>

definition apiUrl :: string where
  "apiUrl = ''http://localhost:8000''"

definition KnowledgeBaseService_getDownloadUrl :: "string \<Rightarrow> string" where
  "KnowledgeBaseService_getDownloadUrl name = apiUrl @ ''/download/'' @ name"

text \<open>
  The outcome of one HTTP call, as its observable delivers it: one value and then
  completion, or one error.
\<close>

datatype 'a http_result = Success 'a | Failure string

section \<open>The query component\<close>

datatype role = User | Assistant

record ChatMessage =
  role :: role
  content :: string
  sources :: "string list option"

text \<open>The response of \<open>POST /query\<close>; a field that is absent is \<open>None\<close>.\<close>

record QueryResponse =
  answer :: "string option"
  source_documents :: "string list option"

text \<open>
  The fields of \<open>QueryComponent\<close>, and with them what the component has done to the
  outside: the bodies of the \<open>POST /query\<close> calls it has issued and the lines it has
  written to the console, both in order.
\<close>

record QueryComponent =
  query :: string
  isLoading :: bool
  errorMessage :: string
  messages :: "ChatMessage list"
  posted :: "string list"
  console :: "string list"

definition QueryComponent_new :: QueryComponent where
  "QueryComponent_new =
     \<lparr>query = [], isLoading = False, errorMessage = [], messages = [],
      posted = [], console = []\<rparr>"

text \<open>
  \<open>queryKnowledgeBase(userMessage).subscribe(...)\<close>: subscribing issues the call.
\<close>

definition queryKnowledgeBase :: "string \<Rightarrow> QueryComponent \<Rightarrow> QueryComponent" where
  "queryKnowledgeBase q st = st\<lparr>posted := posted st @ [q]\<rparr>"

text \<open>
  \<open>submitQuery\<close> up to the call (lines 34 to 38 of the component), and the whole of
  its synchronous part.
\<close>

definition submitQuery_prepare :: "QueryComponent \<Rightarrow> QueryComponent" where
  "submitQuery_prepare st =
     (let st1 = st\<lparr>isLoading := True\<rparr>;
          st2 = st1\<lparr>errorMessage := []\<rparr>;
          userMessage = query st2;
          st3 = st2\<lparr>messages := messages st2 @
                  [\<lparr>role = User, content = userMessage, sources = None\<rparr>]\<rparr>
      in st3\<lparr>query := []\<rparr>)"

definition submitQuery :: "QueryComponent \<Rightarrow> QueryComponent" where
  "submitQuery st =
     (if trim (query st) = [] then st\<lparr>errorMessage := ''Please enter a query''\<rparr>
      else queryKnowledgeBase (query st) (submitQuery_prepare st))"

text \<open>
  The citation identifiers that the \<open>next\<close> callback reads out of the answer. The array
  of a match of the second pattern has the matched text at index 0 and the captured text
  at index 1.
\<close>

definition id_of_match :: "string \<Rightarrow> string" where
  "id_of_match m =
     (case match_first m id_pattern of
        Some (whole # idm # rest) \<Rightarrow> trim idm
      | _ \<Rightarrow> [])"

definition sources_of_answer :: "string \<Rightarrow> string list" where
  "sources_of_answer answerText =
     (case match_global answerText source_pattern of
        None \<Rightarrow> []
      | Some sourceMatches \<Rightarrow>
          filter (\<lambda>i. i \<noteq> []) (new_Set (map id_of_match sourceMatches)))"

definition fallback_answer :: string where
  "fallback_answer = ''No relevant information found. Please rephrase or try another query.''"

text \<open>The \<open>next\<close> and the \<open>error\<close> callback of the subscription.\<close>

definition submitQuery_next :: "QueryResponse option \<Rightarrow> QueryComponent \<Rightarrow> QueryComponent" where
  "submitQuery_next response st =
     (let (answerText, srcs) =
        (case response of
           None \<Rightarrow> (fallback_answer, [])
         | Some r \<Rightarrow>
             (case answer r of
                None \<Rightarrow> (fallback_answer, [])
              | Some a \<Rightarrow>
                  if a \<noteq> [] \<and> trim a \<noteq> []
                  then (a, (case source_documents r of
                              Some ds \<Rightarrow> ds
                            | None \<Rightarrow> sources_of_answer a))
                  else (fallback_answer, [])))
      in st\<lparr>messages := messages st @
                [\<lparr>role = Assistant, content = answerText, sources = Some srcs\<rparr>],
             isLoading := False\<rparr>)"

definition submitQuery_error :: "string \<Rightarrow> QueryComponent \<Rightarrow> QueryComponent" where
  "submitQuery_error err st =
     st\<lparr>console := console st @ [''Error querying knowledge base:'' @ err],
        errorMessage := ''An error occurred while processing your query. Please try again.'',
        isLoading := False\<rparr>"

text \<open>The call resolves: the subscription runs the callback of the outcome.\<close>

fun query_resolved :: "QueryResponse option http_result \<Rightarrow> QueryComponent \<Rightarrow> QueryComponent" where
  "query_resolved (Success response) st = submitQuery_next response st"
| "query_resolved (Failure err) st = submitQuery_error err st"

text \<open>
  \<open>onKeydown\<close>: the event comes back with \<open>defaultPrevented\<close> set when the handler
  called \<open>preventDefault\<close>.
\<close>

record KeyboardEvent =
  key :: string
  shiftKey :: bool
  defaultPrevented :: bool

definition preventDefault :: "KeyboardEvent \<Rightarrow> KeyboardEvent" where
  "preventDefault ev = ev\<lparr>defaultPrevented := True\<rparr>"

definition onKeydown :: "KeyboardEvent \<Rightarrow> QueryComponent \<Rightarrow> KeyboardEvent \<times> QueryComponent" where
  "onKeydown ev st =
     (if key ev = ''Enter'' \<and> \<not> shiftKey ev
      then (preventDefault ev, submitQuery st)
      else (ev, st))"

section \<open>The document list component\<close>

record Document =
  filename :: string
  path :: string
  last_modified :: "string option"

text \<open>
  A \<open>GET /documents\<close> call is issued either by \<open>loadDocuments\<close> or by the periodic
  refresh that \<open>ngOnInit\<close> subscribes to.
\<close>

datatype fetch_origin = InitialLoad | Refresh

text \<open>
  The fields of \<open>DocumentListComponent\<close> (\<open>isLoading\<close> is \<open>isLoading_docs\<close> here) and
  the state of its subscriptions:
  \<^item> \<open>requested\<close>: the \<open>GET /documents\<close> calls issued so far, in order; the position
    of a call in the list is its number;
  \<^item> \<open>loading\<close>: the calls of \<open>loadDocuments\<close> whose subscription still waits for the
    outcome;
  \<^item> \<open>polling\<close>: the subscription to \<open>interval(10000).pipe(switchMap(...))\<close> is open;
  \<^item> \<open>inner\<close>: the call that \<open>switchMap\<close> is subscribed to at the moment;
  \<^item> \<open>console_docs\<close>: the lines written to the console.
\<close>

record DocumentListComponent =
  documents :: "Document list"
  isLoading_docs :: bool
  localStorageItems :: "(string \<times> string) list"
  requested :: "fetch_origin list"
  loading :: "nat list"
  polling :: bool
  inner :: "nat option"
  console_docs :: "string list"

definition DocumentListComponent_new :: DocumentListComponent where
  "DocumentListComponent_new =
     \<lparr>documents = [], isLoading_docs = True, localStorageItems = [],
      requested = [], loading = [], polling = False, inner = None, console_docs = []\<rparr>"

text \<open>\<open>getDocuments().subscribe(...)\<close>: subscribing issues the call, whose number is returned.\<close>

definition getDocuments :: "fetch_origin \<Rightarrow> DocumentListComponent \<Rightarrow> nat \<times> DocumentListComponent" where
  "getDocuments origin st = (length (requested st), st\<lparr>requested := requested st @ [origin]\<rparr>)"

definition loadDocuments :: "DocumentListComponent \<Rightarrow> DocumentListComponent" where
  "loadDocuments st =
     (let st1 = st\<lparr>isLoading_docs := True\<rparr>;
          (i, st2) = getDocuments InitialLoad st1
      in st2\<lparr>loading := loading st2 @ [i]\<rparr>)"

definition loadDocuments_next :: "Document list \<Rightarrow> DocumentListComponent \<Rightarrow> DocumentListComponent" where
  "loadDocuments_next docs st = st\<lparr>documents := docs, isLoading_docs := False\<rparr>"

definition loadDocuments_error :: "string \<Rightarrow> DocumentListComponent \<Rightarrow> DocumentListComponent" where
  "loadDocuments_error err st =
     st\<lparr>console_docs := console_docs st @ [''Error loading documents:'' @ err],
        isLoading_docs := False\<rparr>"

text \<open>
  \<open>loadLocalStorageItems\<close>: the local store is the list of its entries, key and value;
  \<open>localStorage.key(i)\<close> is the key at position \<open>i\<close>, \<open>localStorage.getItem(k)\<close> the
  value stored under \<open>k\<close>. An entry whose key is the empty string is skipped.
\<close>

definition localStorage_key :: "(string \<times> string) list \<Rightarrow> nat \<Rightarrow> string option" where
  "localStorage_key ls i = (if i < length ls then Some (fst (ls ! i)) else None)"

definition localStorage_getItem :: "(string \<times> string) list \<Rightarrow> string \<Rightarrow> string option" where
  "localStorage_getItem ls k = map_of ls k"

definition loadLocalStorageItems ::
  "(string \<times> string) list \<Rightarrow> DocumentListComponent \<Rightarrow> DocumentListComponent" where
  "loadLocalStorageItems ls st =
     foldl (\<lambda>s i.
              (case localStorage_key ls i of
                 None \<Rightarrow> s
               | Some k \<Rightarrow>
                   if k = [] then s
                   else s\<lparr>localStorageItems := localStorageItems s @
                          [(k, (case localStorage_getItem ls k of None \<Rightarrow> [] | Some v \<Rightarrow> v))]\<rparr>))
       (st\<lparr>localStorageItems := []\<rparr>) [0..<length ls]"

text \<open>The \<open>next\<close> and the \<open>error\<close> callback of the periodic refresh.\<close>

definition refresh_next :: "Document list \<Rightarrow> DocumentListComponent \<Rightarrow> DocumentListComponent" where
  "refresh_next docs st = st\<lparr>documents := docs\<rparr>"

definition refresh_error :: "string \<Rightarrow> DocumentListComponent \<Rightarrow> DocumentListComponent" where
  "refresh_error err st =
     st\<lparr>console_docs := console_docs st @ [''Error refreshing documents:'' @ err]\<rparr>"

text \<open>
  \<open>ngOnInit\<close>: the initial load, the snapshot of the local store, and the subscription
  to the periodic refresh (\<open>interval\<close> emits nothing at the moment of subscription).
\<close>

definition ngOnInit :: "(string \<times> string) list \<Rightarrow> DocumentListComponent \<Rightarrow> DocumentListComponent" where
  "ngOnInit ls st =
     (let st1 = loadDocuments st;
          st2 = loadLocalStorageItems ls st1
      in st2\<lparr>polling := True\<rparr>)"

text \<open>
  What happens to the component after \<open>ngOnInit\<close>: the timer of \<open>interval\<close> fires, or a
  call that was issued has its outcome.

  \<^item> \<open>Tick\<close>: while the subscription is open, \<open>switchMap\<close> drops the call it was
    subscribed to and subscribes to a new \<open>getDocuments()\<close>. Once the subscription is
    closed its timer is cleared, and a later instant of the clock does nothing.
  \<^item> \<open>Resolved i res\<close>: the outcome of call \<open>i\<close>. A call of \<open>loadDocuments\<close> runs the
    callbacks of \<open>loadDocuments\<close>. The call \<open>switchMap\<close> is subscribed to hands a value
    to the \<open>next\<close> callback of the refresh and completes. Its error is not caught
    inside \<open>switchMap\<close>, which passes the error of the inner observable on as the
    error of the piped observable: the \<open>error\<close> callback runs and the subscription is
    closed, as the observable contract has it (an error is the last notification of an
    observable), and closing it unsubscribes from \<open>interval\<close>.
    The outcome of any other call is observed by nobody.
\<close>

datatype docs_event = Tick | Resolved nat "Document list http_result"

fun docs_step :: "DocumentListComponent \<Rightarrow> docs_event \<Rightarrow> DocumentListComponent" where
  "docs_step st Tick =
     (if polling st
      then (let (i, st1) = getDocuments Refresh st in st1\<lparr>inner := Some i\<rparr>)
      else st)"
| "docs_step st (Resolved i res) =
     (if i \<in> set (loading st)
      then (let st1 = st\<lparr>loading := removeAll i (loading st)\<rparr>
            in (case res of
                  Success docs \<Rightarrow> loadDocuments_next docs st1
                | Failure err \<Rightarrow> loadDocuments_error err st1))
      else if polling st \<and> inner st = Some i
      then (case res of
              Success docs \<Rightarrow> refresh_next docs (st\<lparr>inner := None\<rparr>)
            | Failure err \<Rightarrow> refresh_error err (st\<lparr>inner := None, polling := False\<rparr>))
      else st)"

definition docs_run :: "docs_event list \<Rightarrow> DocumentListComponent \<Rightarrow> DocumentListComponent" where
  "docs_run evs st = foldl docs_step st evs"

definition DocumentListComponent_getDownloadUrl :: "string \<Rightarrow> string" where
  "DocumentListComponent_getDownloadUrl name = KnowledgeBaseService_getDownloadUrl name"

section \<open>The citation scan in the words of the specification\<close>

text \<open>
  The specification describes the scan without the second pattern: the answer is
  scanned for the occurrences of \<^verbatim>\<open>(Source: ... id:<ID>)\<close> from left to right, the
  \<^verbatim>\<open><ID>\<close> of each occurrence is taken and trimmed, an identifier seen before is
  dropped, and so are the empty ones.
\<close>

definition occurrence_ids :: "string \<Rightarrow> string list" where
  "occurrence_ids a =
     map (\<lambda>(m, g). case g of [] \<Rightarrow> [] | i # _ \<Rightarrow> i) (rx_scan source_pattern 0 a)"

fun dedup_first :: "'a list \<Rightarrow> 'a list" where
  "dedup_first [] = []"
| "dedup_first (x # xs) = x # dedup_first (filter (\<lambda>y. y \<noteq> x) xs)"

definition spec_sources :: "string \<Rightarrow> string list" where
  "spec_sources a = filter (\<lambda>i. i \<noteq> []) (dedup_first (map trim (occurrence_ids a)))"

section \<open>Auxiliary notions\<close>

text \<open>An assistant entry of the transcript.\<close>

definition isAssistant :: "ChatMessage \<Rightarrow> bool" where
  "isAssistant m = (role m = Assistant)"

text \<open>An event of the document list that is not the success of a call.\<close>

fun no_success :: "docs_event \<Rightarrow> bool" where
  "no_success Tick = True"
| "no_success (Resolved i (Success docs)) = False"
| "no_success (Resolved i (Failure err)) = True"

section \<open>White space\<close>

lemma dropWhile_Nil_iff: "dropWhile P xs = [] \<longleftrightarrow> (\<forall>x\<in>set xs. P x)"
  by (induction xs) auto

lemma all_dropWhile_iff: "(\<forall>x\<in>set (dropWhile P xs). P x) \<longleftrightarrow> (\<forall>x\<in>set xs. P x)"
  by (induction xs) auto

text \<open>A string trims to the empty string exactly when it is empty or all white space.\<close>

lemma trim_Nil_iff: "trim s = [] \<longleftrightarrow> (\<forall>c\<in>set s. isWhiteSpace c)"
  by (simp add: trim_def dropWhile_Nil_iff all_dropWhile_iff)

section \<open>Submitting a query\<close>

text \<open>
  Claim C5. When the query text is empty or consists of white space only, \<open>submitQuery\<close>
  changes nothing but the error message, which becomes the validation message: no
  \<open>POST /query\<close> is issued and no transcript entry is appended.
\<close>

theorem blank_query_rejected:
  assumes "\<forall>c\<in>set (query st). isWhiteSpace c"
  shows "submitQuery st = st\<lparr>errorMessage := ''Please enter a query''\<rparr>
       \<and> posted (submitQuery st) = posted st
       \<and> messages (submitQuery st) = messages st
       \<and> errorMessage (submitQuery st) = ''Please enter a query''"
proof -
  from assms have "trim (query st) = []"
    by (simp add: trim_Nil_iff)
  then show ?thesis
    by (simp add: submitQuery_def)
qed

theorem blank_query_rejected_witness:
  "posted (submitQuery (QueryComponent_new\<lparr>query := [CHR 0x20, CHR 0x09, CHR 0x0A]\<rparr>)) = []
 \<and> messages (submitQuery (QueryComponent_new\<lparr>query := [CHR 0x20, CHR 0x09, CHR 0x0A]\<rparr>)) = []
 \<and> errorMessage (submitQuery (QueryComponent_new\<lparr>query := [CHR 0x20, CHR 0x09, CHR 0x0A]\<rparr>))
      = ''Please enter a query''"
  using blank_query_rejected [of "QueryComponent_new\<lparr>query := [CHR 0x20, CHR 0x09, CHR 0x0A]\<rparr>"]
  by (simp add: QueryComponent_new_def isWhiteSpace_def)

text \<open>
  Claim C10. When the trimmed query text is not empty, the state in which \<open>submitQuery\<close>
  issues the call already has the error message cleared and the loading flag set, and
  the call has not been issued before that state; both still hold when \<open>submitQuery\<close>
  returns. The witness starts from a component that shows the validation message of an
  earlier, rejected submission.
\<close>

theorem valid_submission_clears_error:
  assumes "trim (query st) \<noteq> []"
  shows "errorMessage (submitQuery_prepare st) = []
       \<and> isLoading (submitQuery_prepare st)
       \<and> posted (submitQuery_prepare st) = posted st
       \<and> submitQuery st = queryKnowledgeBase (query st) (submitQuery_prepare st)
       \<and> posted (submitQuery st) = posted st @ [query st]
       \<and> errorMessage (submitQuery st) = []
       \<and> isLoading (submitQuery st)"
  using assms
  by (simp add: submitQuery_def submitQuery_prepare_def queryKnowledgeBase_def Let_def)

theorem valid_submission_clears_error_witness:
  "errorMessage ((submitQuery QueryComponent_new)\<lparr>query := ''hello''\<rparr>) = ''Please enter a query''
 \<and> errorMessage (submitQuery ((submitQuery QueryComponent_new)\<lparr>query := ''hello''\<rparr>)) = []
 \<and> isLoading (submitQuery ((submitQuery QueryComponent_new)\<lparr>query := ''hello''\<rparr>))
 \<and> posted (submitQuery ((submitQuery QueryComponent_new)\<lparr>query := ''hello''\<rparr>)) = [''hello'']"
  using valid_submission_clears_error [of "(submitQuery QueryComponent_new)\<lparr>query := ''hello''\<rparr>"]
  by (simp add: submitQuery_def QueryComponent_new_def trim_def isWhiteSpace_def)

text \<open>
  Claim C1, as the code has it. When the query text has a character that is not white
  space, \<open>submitQuery\<close> appends the user entry and issues the call, so the entry is in
  the transcript before the call resolves. When the call resolves with success, exactly
  one entry is appended, and it is an assistant entry. When it resolves with failure, no
  entry is appended: the transcript stays as it was, user entry included, and the fixed
  error message is set.
\<close>

theorem transcript_of_one_submission:
  assumes "\<exists>c\<in>set (query st). \<not> isWhiteSpace c"
  shows "messages (submitQuery st) = messages st @ [\<lparr>role = User, content = query st, sources = None\<rparr>]
       \<and> posted (submitQuery st) = posted st @ [query st]
       \<and> (\<exists>m. isAssistant m \<and>
              messages (query_resolved (Success response) (submitQuery st))
                = messages (submitQuery st) @ [m])
       \<and> messages (query_resolved (Failure err) (submitQuery st)) = messages (submitQuery st)
       \<and> errorMessage (query_resolved (Failure err) (submitQuery st))
           = ''An error occurred while processing your query. Please try again.''"
proof -
  from assms have ne: "trim (query st) \<noteq> []"
    by (auto simp: trim_Nil_iff)
  have user: "messages (submitQuery st) = messages st @ [\<lparr>role = User, content = query st, sources = None\<rparr>]"
    using ne by (simp add: submitQuery_def submitQuery_prepare_def queryKnowledgeBase_def)
  have call: "posted (submitQuery st) = posted st @ [query st]"
    using ne by (simp add: submitQuery_def submitQuery_prepare_def queryKnowledgeBase_def)
  have ok: "\<exists>m. isAssistant m \<and>
              messages (query_resolved (Success response) (submitQuery st))
                = messages (submitQuery st) @ [m]"
    by (simp add: submitQuery_next_def isAssistant_def split: prod.split)
  have bad: "messages (query_resolved (Failure err) (submitQuery st)) = messages (submitQuery st)"
    by (simp add: submitQuery_error_def)
  have msg: "errorMessage (query_resolved (Failure err) (submitQuery st))
           = ''An error occurred while processing your query. Please try again.''"
    by (simp add: submitQuery_error_def)
  from user call ok bad msg show ?thesis by blast
qed

theorem transcript_of_one_submission_witness:
  "messages (submitQuery (QueryComponent_new\<lparr>query := ''hi''\<rparr>))
     = [\<lparr>role = User, content = ''hi'', sources = None\<rparr>]
 \<and> posted (submitQuery (QueryComponent_new\<lparr>query := ''hi''\<rparr>)) = [''hi'']
 \<and> messages (query_resolved
       (Success (Some \<lparr>answer = Some ''Hello'', source_documents = Some [''x'']\<rparr>))
       (submitQuery (QueryComponent_new\<lparr>query := ''hi''\<rparr>)))
     = [\<lparr>role = User, content = ''hi'', sources = None\<rparr>,
        \<lparr>role = Assistant, content = ''Hello'', sources = Some [''x'']\<rparr>]
 \<and> messages (query_resolved (Failure ''timeout'') (submitQuery (QueryComponent_new\<lparr>query := ''hi''\<rparr>)))
     = [\<lparr>role = User, content = ''hi'', sources = None\<rparr>]"
  using transcript_of_one_submission
    [of "QueryComponent_new\<lparr>query := ''hi''\<rparr>"
        "Some \<lparr>answer = Some ''Hello'', source_documents = Some [''x'']\<rparr>" "''timeout''"]
  by (simp add: QueryComponent_new_def isWhiteSpace_def submitQuery_next_def trim_def)

text \<open>
  Claim C1, as stated, fails when the call fails: after the submission of \<open>hi\<close> and a
  failed call the transcript holds the user entry alone, and no assistant entry.
\<close>

theorem failed_query_appends_no_assistant_entry:
  "trim ''hi'' \<noteq> []
 \<and> messages (query_resolved (Failure ''timeout'')
       (submitQuery (QueryComponent_new\<lparr>query := ''hi''\<rparr>)))
   = [\<lparr>role = User, content = ''hi'', sources = None\<rparr>]
 \<and> filter isAssistant (messages (query_resolved (Failure ''timeout'')
       (submitQuery (QueryComponent_new\<lparr>query := ''hi''\<rparr>)))) = []"
  by (simp add: trim_def isWhiteSpace_def submitQuery_def submitQuery_prepare_def
      queryKnowledgeBase_def submitQuery_error_def QueryComponent_new_def isAssistant_def)

section \<open>The matcher and the citation scan\<close>

text \<open>A match has one capture for every capture group of the pattern.\<close>

lemma rx_match_captures:
  "rx_match r s = Some (m, g) \<Longrightarrow> length g = length (filter (\<lambda>i. i = CapDots) r)"
  by (induction r s arbitrary: m g rule: rx_match.induct)
     (auto split: if_splits option.splits prod.splits list.splits)

text \<open>The matched text is a prefix of the input.\<close>

lemma rx_match_prefix:
  "rx_match r s = Some (m, g) \<Longrightarrow> \<exists>u. s = m @ u"
  by (induction r s arbitrary: m g rule: rx_match.induct)
     (auto split: if_splits option.splits prod.splits list.splits)

lemma rx_match_CapDots_captures:
  "rx_match (CapDots # r) s = Some (m, g) \<Longrightarrow> g \<noteq> []"
  by (drule rx_match_captures) auto

text \<open>A pattern that matches an input matches every extension of it: a match never fails
  for more input to the right.\<close>

lemma rx_match_mono:
  "rx_match r t \<noteq> None \<Longrightarrow> rx_match r (t @ u) \<noteq> None"
proof (induction r t rule: rx_match.induct)
  case (1 s)
  then show ?case by simp
next
  case (2 c r)
  then show ?case by simp
next
  case (3 c r x xs)
  then show ?case by (auto split: if_splits option.splits)
next
  case (4 r)
  then show ?case by (cases u) (auto split: option.splits)
next
  case (5 r x xs)
  then show ?case by (auto split: if_splits option.splits)
next
  case (6 r)
  then show ?case by (cases u) (auto split: option.splits)
next
  case (7 r x xs)
  then show ?case
    by (auto split: if_splits option.splits list.splits dest: rx_match_CapDots_captures)
qed

lemma rx_match_mono_None:
  "rx_match r (t @ u) = None \<Longrightarrow> rx_match r t = None"
  using rx_match_mono by blast

text \<open>A match reads the matched text only: it is also the match on any prefix of the input
  that holds the matched text.\<close>

lemma rx_match_trunc:
  "rx_match r (t @ u) = Some (m, g) \<Longrightarrow> length m \<le> length t \<Longrightarrow> rx_match r t = Some (m, g)"
proof (induction r t arbitrary: m g rule: rx_match.induct)
  case (1 s)
  then show ?case by simp
next
  case (2 c r)
  then show ?case by (cases u) (auto split: if_splits option.splits)
next
  case (3 c r x xs)
  then show ?case by (auto split: if_splits option.splits)
next
  case (4 r)
  then show ?case by (cases u) (auto split: if_splits option.splits)
next
  case (5 r x xs)
  show ?case
  proof (cases "rx_match r (x # xs @ u)")
    case (Some res)
    with "5.prems" have "rx_match r ((x # xs) @ u) = Some (m, g)" by simp
    with "5.prems" have "rx_match r (x # xs) = Some (m, g)"
      by (intro "5.IH"(1))
    then show ?thesis by simp
  next
    case None
    then have none: "rx_match r (x # xs) = None"
      using rx_match_mono_None [of r "x # xs" u] by simp
    from None "5.prems" have nl: "\<not> isLineTerminator x"
      by (auto split: if_splits)
    from None "5.prems" nl obtain m1 where
      m1: "rx_match (Dots # r) (xs @ u) = Some (m1, g)" "m = x # m1"
      by (auto split: option.splits)
    from "5.prems" m1 have "length m1 \<le> length xs" by simp
    with m1 none nl have "rx_match (Dots # r) xs = Some (m1, g)"
      by (intro "5.IH"(2))
    with none nl m1 show ?thesis by simp
  qed
next
  case (6 r)
  then show ?case by (cases u) (auto split: if_splits option.splits list.splits)
next
  case (7 r x xs)
  show ?case
  proof (cases "rx_match r (x # xs @ u)")
    case (Some res)
    with "7.prems" obtain g1 where
      g1: "rx_match r ((x # xs) @ u) = Some (m, g1)" "g = [] # g1"
      by (auto split: prod.splits)
    with "7.prems" have "rx_match r (x # xs) = Some (m, g1)"
      by (intro "7.IH"(1))
    with g1 show ?thesis by simp
  next
    case None
    then have none: "rx_match r (x # xs) = None"
      using rx_match_mono_None [of r "x # xs" u] by simp
    from None "7.prems" have nl: "\<not> isLineTerminator x"
      by (auto split: if_splits)
    from None "7.prems" nl obtain m1 c g1 where
      m1: "rx_match (CapDots # r) (xs @ u) = Some (m1, c # g1)" "m = x # m1" "g = (x # c) # g1"
      by (auto split: option.splits prod.splits list.splits)
    from "7.prems" m1 have "length m1 \<le> length xs" by simp
    with m1 none nl have "rx_match (CapDots # r) xs = Some (m1, c # g1)"
      by (intro "7.IH"(2))
    with none nl m1 show ?thesis by simp
  qed
qed

lemma rx_match_on_matched:
  assumes "rx_match r s = Some (m, g)"
  shows "rx_match r m = Some (m, g)"
proof -
  from assms obtain u where "s = m @ u"
    using rx_match_prefix by blast
  with assms show ?thesis
    using rx_match_trunc [of r m u m g] by simp
qed

text \<open>A match of a pattern that starts with literal characters.\<close>

lemma rx_match_literals:
  "rx_match (map Lit p @ r) s = Some (m, g) \<Longrightarrow>
     \<exists>s' m'. s = p @ s' \<and> m = p @ m' \<and> rx_match r s' = Some (m', g)"
proof (induction p arbitrary: s m)
  case Nil
  then show ?case by simp
next
  case (Cons c p)
  from Cons.prems obtain xs m1 where
    s: "s = c # xs" "m = c # m1" "rx_match (map Lit p @ r) xs = Some (m1, g)"
    by (cases s) (auto split: if_splits option.splits)
  from Cons.IH [OF s(3)] obtain s' m' where
    "xs = p @ s'" "m1 = p @ m'" "rx_match r s' = Some (m', g)"
    by blast
  with s show ?case by simp
qed

text \<open>A match of a pattern that starts with the lazy \<^verbatim>\<open>.*?\<close>: the rest of the pattern
  matches where the lazy item stops and at no position it has passed, and no character it
  has passed is a line terminator.\<close>

lemma rx_match_Dots:
  "rx_match (Dots # r) s = Some (m, g) \<Longrightarrow>
     \<exists>a m'. m = a @ m' \<and> take (length a) s = a \<and> length a \<le> length s
          \<and> rx_match r (drop (length a) s) = Some (m', g)
          \<and> (\<forall>k<length a. rx_match r (drop k s) = None)
          \<and> (\<forall>c\<in>set a. \<not> isLineTerminator c)"
proof (induction s arbitrary: m)
  case Nil
  then show ?case by (intro exI [of _ "[]"] exI [of _ m]) simp
next
  case (Cons x xs)
  show ?case
  proof (cases "rx_match r (x # xs)")
    case (Some res)
    with Cons.prems show ?thesis by (intro exI [of _ "[]"] exI [of _ m]) simp
  next
    case None
    with Cons.prems obtain m1 where m1: "rx_match (Dots # r) xs = Some (m1, g)" "m = x # m1"
      and nl: "\<not> isLineTerminator x"
      by (auto split: if_splits option.splits)
    from Cons.IH [OF m1(1)] obtain a m' where a:
      "m1 = a @ m'" "take (length a) xs = a" "length a \<le> length xs"
      "rx_match r (drop (length a) xs) = Some (m', g)"
      "\<forall>k<length a. rx_match r (drop k xs) = None"
      "\<forall>c\<in>set a. \<not> isLineTerminator c"
      by blast
    have "\<forall>k<length (x # a). rx_match r (drop k (x # xs)) = None"
    proof (intro allI impI)
      fix k assume "k < length (x # a)"
      then show "rx_match r (drop k (x # xs)) = None"
        using None a(5) by (cases k) auto
    qed
    with a m1 nl show ?thesis
      by (intro exI [of _ "x # a"] exI [of _ m']) simp
  qed
qed

text \<open>The search on an input that has a match at its head, or none at its first positions.\<close>

lemma rx_exec_hit: "rx_match r s = Some res \<Longrightarrow> rx_exec r s = Some res"
  by (cases s) auto

lemma rx_exec_skip:
  "(\<forall>k<length a. rx_match r (drop k (a @ w)) = None) \<Longrightarrow> rx_exec r (a @ w) = rx_exec r w"
proof (induction a)
  case Nil
  then show ?case by simp
next
  case (Cons x a)
  from Cons.prems have h: "rx_match r (x # a @ w) = None"
    by (metis append_Cons drop0 length_greater_0_conv list.distinct(1))
  have "\<forall>k<length a. rx_match r (drop k (a @ w)) = None"
  proof (intro allI impI)
    fix k assume "k < length a"
    then have "Suc k < length (x # a)" by simp
    with Cons.prems have "rx_match r (drop (Suc k) ((x # a) @ w)) = None" by blast
    then show "rx_match r (drop k (a @ w)) = None" by simp
  qed
  with Cons.IH h show ?case by simp
qed


text \<open>Every match of the repeated search is a match of the pattern at some input.\<close>

lemma rx_scan_member:
  "(m, g) \<in> set (rx_scan r k s) \<Longrightarrow> \<exists>t. rx_match r t = Some (m, g)"
proof (induction r k s rule: rx_scan.induct)
  case (1 r k)
  then have "rx_match r [] = Some (m, g)"
    by (cases "k = 0"; cases "rx_match r []") auto
  then show ?case by blast
next
  case (2 r k x xs)
  then show ?case by simp
next
  case (3 r x xs)
  show ?case
  proof (cases "rx_match r (x # xs)")
    case None
    with 3 show ?thesis by simp
  next
    case (Some res)
    obtain m1 g1 where res: "res = (m1, g1)" by (cases res)
    show ?thesis
    proof (cases "(m, g) = (m1, g1)")
      case True
      with Some res show ?thesis by blast
    next
      case False
      with "3.prems" Some res have "(m, g) \<in> set (rx_scan r (length m1 - 1) xs)" by auto
      with Some res show ?thesis using "3.IH"(2) by blast
    qed
  qed
qed

text \<open>The first pattern is \<^verbatim>\<open>(Source: \<close>, the lazy \<^verbatim>\<open>.*?\<close> and then the second pattern; no
  match of the second pattern starts inside \<^verbatim>\<open>(Source: \<close>.\<close>

lemma source_pattern_split:
  "source_pattern = map Lit ''(Source: '' @ Dots # id_pattern"
  by (simp add: source_pattern_def id_pattern_def)

lemma rx_exec_id_pattern_after_prefix:
  "rx_exec id_pattern (''(Source: '' @ t) = rx_exec id_pattern t"
  by (simp add: id_pattern_def)

text \<open>The second pattern, searched in a text that the first pattern has matched, finds
  the capture of the first pattern: reading the identifier out of the matched text again
  gives the identifier of the occurrence.\<close>

lemma id_pattern_on_source_match:
  assumes "rx_match source_pattern s = Some (m, g)"
  shows "\<exists>m' i. rx_exec id_pattern m = Some (m', [i]) \<and> g = [i]"
proof -
  from assms obtain s' m1 where
    m1: "m = ''(Source: '' @ m1" "rx_match (Dots # id_pattern) s' = Some (m1, g)"
    unfolding source_pattern_split using rx_match_literals by blast
  from rx_match_Dots [OF m1(2)] obtain a m' where a:
    "m1 = a @ m'" "take (length a) s' = a"
    "rx_match id_pattern (drop (length a) s') = Some (m', g)"
    "\<forall>k<length a. rx_match id_pattern (drop k s') = None"
    by blast
  from a(3) obtain u where u: "drop (length a) s' = m' @ u"
    using rx_match_prefix by blast
  have s': "s' = a @ m' @ u"
    using a(2) u by (metis append_take_drop_id)
  have hit: "rx_match id_pattern m' = Some (m', g)"
    using a(3) by (rule rx_match_on_matched)
  have miss: "\<forall>k<length a. rx_match id_pattern (drop k (a @ m')) = None"
  proof (intro allI impI)
    fix k assume k: "k < length a"
    with a(4) have "rx_match id_pattern (drop k s') = None" by blast
    moreover from k have "drop k s' = drop k (a @ m') @ u"
      by (simp add: s')
    ultimately show "rx_match id_pattern (drop k (a @ m')) = None"
      using rx_match_mono_None by simp
  qed
  have "rx_exec id_pattern m = rx_exec id_pattern (a @ m')"
    by (simp only: m1(1) a(1) rx_exec_id_pattern_after_prefix)
  also have "\<dots> = rx_exec id_pattern m'"
    using miss by (rule rx_exec_skip)
  also have "\<dots> = Some (m', g)"
    using hit by (rule rx_exec_hit)
  finally have exec: "rx_exec id_pattern m = Some (m', g)" .
  from hit have "length g = 1"
    by (auto dest: rx_match_captures simp: id_pattern_def)
  then obtain i where "g = [i]"
    by (cases g) auto
  with exec show ?thesis by blast
qed

lemma id_of_source_match:
  assumes "rx_match source_pattern s = Some (m, g)"
  shows "id_of_match m = trim (case g of [] \<Rightarrow> [] | i # _ \<Rightarrow> i)"
proof -
  from id_pattern_on_source_match [OF assms] obtain m' i where
    "rx_exec id_pattern m = Some (m', [i])" "g = [i]"
    by blast
  then show ?thesis
    by (simp add: id_of_match_def match_first_def)
qed

text \<open>\<open>new Set\<close> keeps the first of equal elements, in the order of the list.\<close>

lemma foldl_Set_add:
  "foldl Set_add acc xs = acc @ dedup_first (filter (\<lambda>x. x \<notin> set acc) xs)"
proof (induction xs arbitrary: acc)
  case Nil
  then show ?case by simp
next
  case (Cons x xs)
  show ?case
  proof (cases "x \<in> set acc")
    case True
    then have "Set_add acc x = acc" by (simp add: Set_add_def)
    with True show ?thesis by (simp add: Cons.IH)
  next
    case False
    have "filter (\<lambda>y. y \<noteq> x) (filter (\<lambda>y. y \<notin> set acc) xs)
            = filter (\<lambda>y. y \<notin> set (acc @ [x])) xs"
      by (induction xs) auto
    moreover from False have "Set_add acc x = acc @ [x]" by (simp add: Set_add_def)
    ultimately show ?thesis using False by (simp add: Cons.IH)
  qed
qed

lemma new_Set_dedup_first: "new_Set xs = dedup_first xs"
  by (simp add: new_Set_def foldl_Set_add)

lemma set_dedup_first: "set (dedup_first xs) = set xs"
  by (induction xs rule: dedup_first.induct) auto

lemma distinct_dedup_first: "distinct (dedup_first xs)"
  by (induction xs rule: dedup_first.induct) (auto simp: set_dedup_first)

text \<open>The sources that the callback reads out of an answer are the sources of the
  specification.\<close>

lemma sources_of_answer_spec: "sources_of_answer a = spec_sources a"
proof (cases "rx_scan source_pattern 0 a")
  case Nil
  then show ?thesis
    by (simp add: sources_of_answer_def match_global_def spec_sources_def occurrence_ids_def)
next
  case (Cons p ps)
  have "map id_of_match (map fst (rx_scan source_pattern 0 a)) = map trim (occurrence_ids a)"
    unfolding occurrence_ids_def map_map
  proof (rule map_cong [OF refl])
    fix p assume "p \<in> set (rx_scan source_pattern 0 a)"
    then obtain t where "rx_match source_pattern t = Some (fst p, snd p)"
      using rx_scan_member [of "fst p" "snd p" source_pattern 0 a] by auto
    then have "id_of_match (fst p) = trim (case snd p of [] \<Rightarrow> [] | i # _ \<Rightarrow> i)"
      by (rule id_of_source_match)
    then show "(id_of_match \<circ> fst) p = (trim \<circ> (\<lambda>(m, g). case g of [] \<Rightarrow> [] | i # _ \<Rightarrow> i)) p"
      by (cases p) simp
  qed
  with Cons show ?thesis
    by (simp add: sources_of_answer_def match_global_def spec_sources_def new_Set_dedup_first)
qed

text \<open>The shape of an occurrence: \<^verbatim>\<open>(Source: \<close>, characters of one line, \<^verbatim>\<open>id:\<close>, the
  identifier, which has no \<^verbatim>\<open>)\<close> and no line terminator, and \<^verbatim>\<open>)\<close>.\<close>

lemma rx_match_CapDots_Lit:
  "rx_match [CapDots, Lit c] t = Some (m, g) \<Longrightarrow>
     \<exists>i. m = i @ [c] \<and> g = [i] \<and> (\<forall>x\<in>set i. x \<noteq> c \<and> \<not> isLineTerminator x)"
proof (induction t arbitrary: m g)
  case Nil
  then show ?case by simp
next
  case (Cons x xs)
  show ?case
  proof (cases "x = c")
    case True
    with Cons.prems show ?thesis by simp
  next
    case False
    with Cons.prems obtain m1 c1 g1 where
      m1: "rx_match [CapDots, Lit c] xs = Some (m1, c1 # g1)" "m = x # m1" "g = (x # c1) # g1"
      and nl: "\<not> isLineTerminator x"
      by (auto split: if_splits option.splits prod.splits list.splits)
    from Cons.IH [OF m1(1)] obtain i where
      "m1 = i @ [c]" "c1 # g1 = [i]" "\<forall>x\<in>set i. x \<noteq> c \<and> \<not> isLineTerminator x"
      by blast
    with m1 nl False show ?thesis
      by (intro exI [of _ "x # i"]) simp
  qed
qed

lemma source_match_shape:
  assumes "rx_match source_pattern s = Some (m, g)"
  shows "\<exists>a i. m = ''(Source: '' @ a @ ''id:'' @ i @ '')'' \<and> g = [i]
           \<and> (\<forall>c\<in>set a. \<not> isLineTerminator c)
           \<and> (\<forall>c\<in>set i. c \<noteq> CHR '')'' \<and> \<not> isLineTerminator c)"
proof -
  from assms obtain s' m1 where
    m1: "m = ''(Source: '' @ m1" "rx_match (Dots # id_pattern) s' = Some (m1, g)"
    unfolding source_pattern_split using rx_match_literals by blast
  from rx_match_Dots [OF m1(2)] obtain a m2 where a:
    "m1 = a @ m2" "rx_match id_pattern (drop (length a) s') = Some (m2, g)"
    "\<forall>c\<in>set a. \<not> isLineTerminator c"
    by blast
  have "id_pattern = map Lit ''id:'' @ [CapDots, Lit (CHR '')'')]"
    by (simp add: id_pattern_def)
  with a(2) obtain t m3 where
    m3: "m2 = ''id:'' @ m3" "rx_match [CapDots, Lit (CHR '')'')] t = Some (m3, g)"
    using rx_match_literals [of "''id:''" "[CapDots, Lit (CHR '')'')]"] by metis
  from rx_match_CapDots_Lit [OF m3(2)] obtain i where
    "m3 = i @ '')''" "g = [i]" "\<forall>c\<in>set i. c \<noteq> CHR '')'' \<and> \<not> isLineTerminator c"
    by blast
  with m1(1) a(1,3) m3(1) show ?thesis
    by (intro exI [of _ a] exI [of _ i]) simp
qed

section \<open>The answer and its sources\<close>

text \<open>
  Claim C3. When the answer of a success response is absent, empty or all white space,
  the \<open>next\<close> callback appends an assistant entry with the fixed fallback text and no
  sources, whatever \<open>source_documents\<close> the response carries.
\<close>

theorem blank_answer_gives_fallback:
  assumes "answer r = None \<or> (\<exists>a. answer r = Some a \<and> (\<forall>c\<in>set a. isWhiteSpace c))"
  shows "submitQuery_next (Some r) st =
           st\<lparr>messages := messages st @
                 [\<lparr>role = Assistant,
                   content = ''No relevant information found. Please rephrase or try another query.'',
                   sources = Some []\<rparr>],
              isLoading := False\<rparr>"
  using assms
  by (auto simp: submitQuery_next_def fallback_answer_def trim_Nil_iff)

theorem blank_answer_gives_fallback_witness:
  "messages (submitQuery_next (Some \<lparr>answer = Some [], source_documents = Some [''a'', ''b'']\<rparr>)
      QueryComponent_new)
   = [\<lparr>role = Assistant,
       content = ''No relevant information found. Please rephrase or try another query.'',
       sources = Some []\<rparr>]
 \<and> messages (submitQuery_next (Some \<lparr>answer = Some [CHR 0x20, CHR 0x0A], source_documents = Some [''a'']\<rparr>)
      QueryComponent_new)
   = [\<lparr>role = Assistant,
       content = ''No relevant information found. Please rephrase or try another query.'',
       sources = Some []\<rparr>]
 \<and> messages (submitQuery_next (Some \<lparr>answer = None, source_documents = Some [''a'']\<rparr>)
      QueryComponent_new)
   = [\<lparr>role = Assistant,
       content = ''No relevant information found. Please rephrase or try another query.'',
       sources = Some []\<rparr>]"
  using
    blank_answer_gives_fallback [of "\<lparr>answer = Some [], source_documents = Some [''a'', ''b'']\<rparr>"
       QueryComponent_new]
    blank_answer_gives_fallback [of "\<lparr>answer = Some [CHR 0x20, CHR 0x0A], source_documents = Some [''a'']\<rparr>"
       QueryComponent_new]
    blank_answer_gives_fallback [of "\<lparr>answer = None, source_documents = Some [''a'']\<rparr>"
       QueryComponent_new]
  by (simp add: QueryComponent_new_def isWhiteSpace_def)

text \<open>
  Claim C4. When the answer of a success response has a character that is not white
  space and the response carries \<open>source_documents\<close>, the \<open>next\<close> callback appends an
  assistant entry with the answer as it is and with exactly those sources; the answer's
  own citation markers play no part. The answer of the witness has such a marker.
\<close>

theorem explicit_sources_used_as_is:
  assumes "answer r = Some a" and "\<exists>c\<in>set a. \<not> isWhiteSpace c"
    and "source_documents r = Some ds"
  shows "submitQuery_next (Some r) st =
           st\<lparr>messages := messages st @ [\<lparr>role = Assistant, content = a, sources = Some ds\<rparr>],
              isLoading := False\<rparr>"
proof -
  from assms(2) have "trim a \<noteq> []" and "a \<noteq> []"
    by (auto simp: trim_Nil_iff)
  with assms(1,3) show ?thesis
    by (simp add: submitQuery_next_def)
qed

theorem explicit_sources_used_as_is_witness:
  "messages (submitQuery_next
      (Some \<lparr>answer = Some ''Result text (Source: d, id:3)'', source_documents = Some [''x'']\<rparr>)
      QueryComponent_new)
   = [\<lparr>role = Assistant, content = ''Result text (Source: d, id:3)'', sources = Some [''x'']\<rparr>]"
  using explicit_sources_used_as_is
    [of "\<lparr>answer = Some ''Result text (Source: d, id:3)'', source_documents = Some [''x'']\<rparr>"
        "''Result text (Source: d, id:3)''" "[''x'']" QueryComponent_new]
  by (simp add: QueryComponent_new_def isWhiteSpace_def)

text \<open>
  Claim C2. When the answer of a success response has a character that is not white
  space and the response has no \<open>source_documents\<close>, the \<open>next\<close> callback appends an
  assistant entry with the answer as it is, whose sources are those of the
  specification: the answer is scanned from left to right for the occurrences of
  \<^verbatim>\<open>(Source: ... id:<ID>)\<close>, the \<^verbatim>\<open><ID>\<close> of each is trimmed, an identifier seen
  before is dropped, and so are the empty ones. For the answer
  \<^verbatim>\<open>Paris (Source: doc1, id:42) (Source: doc2, id:42) (Source: doc3, id:7)\<close> the sources
  are \<open>42\<close> and \<open>7\<close>. The answer of the witness has an identifier in white space, an
  empty one, an occurrence with a \<^verbatim>\<open>)\<close> before \<^verbatim>\<open>id:\<close> and a repeated identifier.
\<close>

theorem citation_ids_from_answer:
  "(answer r = Some a \<and> (\<exists>c\<in>set a. \<not> isWhiteSpace c) \<and> source_documents r = None \<longrightarrow>
      submitQuery_next (Some r) st =
        st\<lparr>messages := messages st @
              [\<lparr>role = Assistant, content = a, sources = Some (spec_sources a)\<rparr>],
           isLoading := False\<rparr>)
 \<and> submitQuery_next
      (Some \<lparr>answer = Some ''Paris (Source: doc1, id:42) (Source: doc2, id:42) (Source: doc3, id:7)'',
             source_documents = None\<rparr>) st =
        st\<lparr>messages := messages st @
              [\<lparr>role = Assistant,
                content = ''Paris (Source: doc1, id:42) (Source: doc2, id:42) (Source: doc3, id:7)'',
                sources = Some [''42'', ''7'']\<rparr>],
           isLoading := False\<rparr>"
proof -
  have general: "submitQuery_next (Some r) st =
        st\<lparr>messages := messages st @
              [\<lparr>role = Assistant, content = a, sources = Some (spec_sources a)\<rparr>],
           isLoading := False\<rparr>"
    if "answer r = Some a" and "\<exists>c\<in>set a. \<not> isWhiteSpace c" and "source_documents r = None"
    for r :: QueryResponse and a
  proof -
    from that(2) have "trim a \<noteq> []" and "a \<noteq> []"
      by (auto simp: trim_Nil_iff)
    with that(1,3) show ?thesis
      by (simp add: submitQuery_next_def sources_of_answer_spec)
  qed
  have paris: "sources_of_answer
      ''Paris (Source: doc1, id:42) (Source: doc2, id:42) (Source: doc3, id:7)'' = [''42'', ''7'']"
    by (simp add: sources_of_answer_def match_global_def source_pattern_def id_pattern_def
        id_of_match_def match_first_def new_Set_def Set_add_def trim_def isWhiteSpace_def
        isLineTerminator_def)
  have blank: "trim ''Paris (Source: doc1, id:42) (Source: doc2, id:42) (Source: doc3, id:7)'' \<noteq> []"
    by (simp add: trim_def isWhiteSpace_def)
  have example: "submitQuery_next
      (Some \<lparr>answer = Some ''Paris (Source: doc1, id:42) (Source: doc2, id:42) (Source: doc3, id:7)'',
             source_documents = None\<rparr>) st =
        st\<lparr>messages := messages st @
              [\<lparr>role = Assistant,
                content = ''Paris (Source: doc1, id:42) (Source: doc2, id:42) (Source: doc3, id:7)'',
                sources = Some [''42'', ''7'']\<rparr>],
           isLoading := False\<rparr>"
    using blank by (simp add: submitQuery_next_def paris)
  from general example show ?thesis by blast
qed


theorem citation_ids_from_answer_witness:
  "messages (submitQuery_next
      (Some \<lparr>answer = Some ''See (Source: kb, id: 9 ) or (Source: x id:) or (Source: b) id:7) (Source: kb2, id:9)'',
             source_documents = None\<rparr>) QueryComponent_new)
   = [\<lparr>role = Assistant,
       content = ''See (Source: kb, id: 9 ) or (Source: x id:) or (Source: b) id:7) (Source: kb2, id:9)'',
       sources = Some [''9'', ''7'']\<rparr>]"
  using citation_ids_from_answer
    [of "\<lparr>answer = Some ''See (Source: kb, id: 9 ) or (Source: x id:) or (Source: b) id:7) (Source: kb2, id:9)'',
          source_documents = None\<rparr>"
        "''See (Source: kb, id: 9 ) or (Source: x id:) or (Source: b) id:7) (Source: kb2, id:9)''"
        QueryComponent_new]
  by (simp add: QueryComponent_new_def spec_sources_def occurrence_ids_def source_pattern_def
      trim_def isWhiteSpace_def isLineTerminator_def)

section \<open>The keyboard\<close>

text \<open>
  Claim C9. A keydown of Enter without Shift suppresses the default action and runs
  \<open>submitQuery\<close> once: the component is left in the state \<open>submitQuery\<close> returns. A
  keydown of Enter with Shift, or of any other key, leaves the event and the component
  as they were.
\<close>

theorem enter_submits_once:
  "(key ev = ''Enter'' \<and> \<not> shiftKey ev \<longrightarrow>
      onKeydown ev st = (ev\<lparr>defaultPrevented := True\<rparr>, submitQuery st))
 \<and> (key ev = ''Enter'' \<and> shiftKey ev \<longrightarrow> onKeydown ev st = (ev, st))
 \<and> (key ev \<noteq> ''Enter'' \<longrightarrow> onKeydown ev st = (ev, st))"
  by (simp add: onKeydown_def preventDefault_def)

theorem enter_submits_once_witness:
  "onKeydown \<lparr>key = ''Enter'', shiftKey = False, defaultPrevented = False\<rparr>
     (QueryComponent_new\<lparr>query := ''hi''\<rparr>)
   = (\<lparr>key = ''Enter'', shiftKey = False, defaultPrevented = True\<rparr>,
      submitQuery (QueryComponent_new\<lparr>query := ''hi''\<rparr>))
 \<and> onKeydown \<lparr>key = ''Enter'', shiftKey = True, defaultPrevented = False\<rparr>
     (QueryComponent_new\<lparr>query := ''hi''\<rparr>)
   = (\<lparr>key = ''Enter'', shiftKey = True, defaultPrevented = False\<rparr>,
      QueryComponent_new\<lparr>query := ''hi''\<rparr>)
 \<and> onKeydown \<lparr>key = ''a'', shiftKey = False, defaultPrevented = False\<rparr>
     (QueryComponent_new\<lparr>query := ''hi''\<rparr>)
   = (\<lparr>key = ''a'', shiftKey = False, defaultPrevented = False\<rparr>,
      QueryComponent_new\<lparr>query := ''hi''\<rparr>)"
  using
    enter_submits_once [of "\<lparr>key = ''Enter'', shiftKey = False, defaultPrevented = False\<rparr>"
       "QueryComponent_new\<lparr>query := ''hi''\<rparr>"]
    enter_submits_once [of "\<lparr>key = ''Enter'', shiftKey = True, defaultPrevented = False\<rparr>"
       "QueryComponent_new\<lparr>query := ''hi''\<rparr>"]
    enter_submits_once [of "\<lparr>key = ''a'', shiftKey = False, defaultPrevented = False\<rparr>"
       "QueryComponent_new\<lparr>query := ''hi''\<rparr>"]
  by simp

section \<open>The download address\<close>

text \<open>
  Claim C8. The download address is the base address, \<open>/download/\<close> and the file name,
  concatenated: the file name appears as it is, special characters included. Neither
  function reads or changes the state of a component, so no call is issued. The method
  of the document list component returns what the method of the service returns.
\<close>

theorem download_url_is_concatenation:
  "KnowledgeBaseService_getDownloadUrl name = ''http://localhost:8000'' @ ''/download/'' @ name
 \<and> DocumentListComponent_getDownloadUrl name = KnowledgeBaseService_getDownloadUrl name
 \<and> DocumentListComponent_getDownloadUrl ''a b%?.pdf'' = ''http://localhost:8000/download/a b%?.pdf''"
  by (simp add: KnowledgeBaseService_getDownloadUrl_def DocumentListComponent_getDownloadUrl_def apiUrl_def)

section \<open>Fetching the documents\<close>

text \<open>\<open>loadLocalStorageItems\<close> changes no field but \<open>localStorageItems\<close>.\<close>

lemma loadLocalStorageItems_fold:
  "\<exists>items. foldl (\<lambda>s i.
              (case localStorage_key ls i of
                 None \<Rightarrow> s
               | Some k \<Rightarrow>
                   if k = [] then s
                   else s\<lparr>localStorageItems := localStorageItems s @
                          [(k, (case localStorage_getItem ls k of None \<Rightarrow> [] | Some v \<Rightarrow> v))]\<rparr>))
       st xs = st\<lparr>localStorageItems := items\<rparr>"
proof (induction xs arbitrary: st)
  case Nil
  have "st = st\<lparr>localStorageItems := localStorageItems st\<rparr>" by simp
  then show ?case by (metis foldl_Nil)
next
  case (Cons x xs)
  show ?case
    using Cons.IH [of "st\<lparr>localStorageItems := localStorageItems st @
         [(the (localStorage_key ls x), (case localStorage_getItem ls (the (localStorage_key ls x)) of None \<Rightarrow> [] | Some v \<Rightarrow> v))]\<rparr>"]
      Cons.IH [of st]
    by (auto split: option.split)
qed

lemma loadLocalStorageItems_only:
  "\<exists>items. loadLocalStorageItems ls st = st\<lparr>localStorageItems := items\<rparr>"
proof -
  obtain items where "loadLocalStorageItems ls st = st\<lparr>localStorageItems := []\<rparr>\<lparr>localStorageItems := items\<rparr>"
    unfolding loadLocalStorageItems_def using loadLocalStorageItems_fold by blast
  then show ?thesis by auto
qed

text \<open>The component after \<open>ngOnInit\<close>: the initial call is call 0.\<close>

lemma ngOnInit_state:
  "\<exists>items. ngOnInit ls DocumentListComponent_new =
     \<lparr>documents = [], isLoading_docs = True, localStorageItems = items,
      requested = [InitialLoad], loading = [0], polling = True, inner = None, console_docs = []\<rparr>"
proof -
  obtain items where "loadLocalStorageItems ls (loadDocuments DocumentListComponent_new)
      = (loadDocuments DocumentListComponent_new)\<lparr>localStorageItems := items\<rparr>"
    using loadLocalStorageItems_only by blast
  then show ?thesis
    by (simp add: ngOnInit_def loadDocuments_def getDocuments_def DocumentListComponent_new_def)
qed

text \<open>
  Claim C6 on the code. The first refresh call fails; the two instants of the clock that
  follow issue no call, since the failure has closed the subscription. The calls issued
  are the initial one and the first refresh, and no other.
\<close>

theorem refresh_stops_after_failure:
  "requested (docs_run [Tick, Resolved 1 (Failure ''503''), Tick, Tick]
      (ngOnInit [] DocumentListComponent_new)) = [InitialLoad, Refresh]
 \<and> \<not> polling (docs_run [Tick, Resolved 1 (Failure ''503'')]
      (ngOnInit [] DocumentListComponent_new))"
  by (simp add: docs_run_def ngOnInit_def loadDocuments_def getDocuments_def
      loadLocalStorageItems_def DocumentListComponent_new_def refresh_error_def)

text \<open>
  Once the subscription is closed, nothing that happens to the component issues a call
  or opens the subscription again.
\<close>

lemma closed_subscription_issues_no_call:
  "\<not> polling st \<Longrightarrow> requested (docs_run evs st) = requested st \<and> \<not> polling (docs_run evs st)"
proof (induction evs arbitrary: st)
  case Nil
  then show ?case by (simp add: docs_run_def)
next
  case (Cons e evs)
  have step: "\<not> polling (docs_step st e) \<and> requested (docs_step st e) = requested st"
    using Cons.prems
    by (cases e)
       (auto simp: Let_def loadDocuments_next_def loadDocuments_error_def
             split: http_result.splits)
  have "docs_run (e # evs) st = docs_run evs (docs_step st e)"
    by (simp add: docs_run_def)
  with step Cons.IH [of "docs_step st e"] show ?case by simp
qed

text \<open>
  While no call has succeeded the documents stay empty, and the loading flag is set only
  as long as the initial call is awaited.
\<close>

lemma no_success_step:
  assumes "no_success e" and "documents st = []"
    and "0 \<in> set (loading st) \<or> \<not> isLoading_docs st"
  shows "documents (docs_step st e) = []
       \<and> (0 \<in> set (loading (docs_step st e)) \<or> \<not> isLoading_docs (docs_step st e))"
proof (cases e)
  case Tick
  with assms show ?thesis
    by (auto simp: getDocuments_def)
next
  case (Resolved i res)
  with assms(1) obtain err where "res = Failure err"
    by (cases res) auto
  with Resolved assms(2,3) show ?thesis
    by (auto simp: loadDocuments_error_def refresh_error_def)
qed

lemma no_success_run:
  assumes "list_all no_success evs" and "documents st = []"
    and "0 \<in> set (loading st) \<or> \<not> isLoading_docs st"
  shows "documents (docs_run evs st) = []
       \<and> (0 \<in> set (loading (docs_run evs st)) \<or> \<not> isLoading_docs (docs_run evs st))"
  using assms
proof (induction evs arbitrary: st)
  case Nil
  then show ?case by (simp add: docs_run_def)
next
  case (Cons e evs)
  from Cons.prems have e: "no_success e" and evs: "list_all no_success evs"
    by simp_all
  from no_success_step [OF e Cons.prems(2,3)]
  have "documents (docs_step st e) = []"
    and "0 \<in> set (loading (docs_step st e)) \<or> \<not> isLoading_docs (docs_step st e)"
    by blast+
  with Cons.IH [OF evs] have
    "documents (docs_run evs (docs_step st e)) = []
       \<and> (0 \<in> set (loading (docs_run evs (docs_step st e)))
            \<or> \<not> isLoading_docs (docs_run evs (docs_step st e)))"
    by blast
  then show ?case by (simp add: docs_run_def)
qed

text \<open>
  Claim C7, as the code has it. A failed call never changes the documents, whichever
  call it is. The failure of a call that is not a call of \<open>loadDocuments\<close>, such as a
  call of the refresh, leaves the loading flag as it was; the failure of a call of
  \<open>loadDocuments\<close> clears it. When no call has succeeded before the initial call
  fails, the documents are the empty sequence and the loading flag is cleared.
\<close>

theorem failed_fetch_keeps_documents:
  "documents (docs_step st (Resolved i (Failure err))) = documents st
 \<and> (i \<notin> set (loading st) \<longrightarrow>
      isLoading_docs (docs_step st (Resolved i (Failure err))) = isLoading_docs st)
 \<and> (i \<in> set (loading st) \<longrightarrow> \<not> isLoading_docs (docs_step st (Resolved i (Failure err))))
 \<and> (list_all no_success evs \<longrightarrow>
      documents (docs_run (evs @ [Resolved 0 (Failure err)]) (ngOnInit ls DocumentListComponent_new)) = []
    \<and> \<not> isLoading_docs
          (docs_run (evs @ [Resolved 0 (Failure err)]) (ngOnInit ls DocumentListComponent_new)))"
proof -
  obtain items where init: "ngOnInit ls DocumentListComponent_new =
     \<lparr>documents = [], isLoading_docs = True, localStorageItems = items,
      requested = [InitialLoad], loading = [0], polling = True, inner = None, console_docs = []\<rparr>"
    using ngOnInit_state by blast
  have a: "documents (docs_step st (Resolved i (Failure err))) = documents st" for st i
    by (simp add: loadDocuments_error_def refresh_error_def)
  have b: "i \<notin> set (loading st) \<longrightarrow>
      isLoading_docs (docs_step st (Resolved i (Failure err))) = isLoading_docs st"
    by (simp add: refresh_error_def)
  have c: "i \<in> set (loading st) \<longrightarrow> \<not> isLoading_docs (docs_step st (Resolved i (Failure err)))" for st i
    by (simp add: loadDocuments_error_def)
  have d: "documents (docs_run (evs @ [Resolved 0 (Failure err)]) (ngOnInit ls DocumentListComponent_new)) = []
    \<and> \<not> isLoading_docs
          (docs_run (evs @ [Resolved 0 (Failure err)]) (ngOnInit ls DocumentListComponent_new))"
    if quiet: "list_all no_success evs"
  proof -
    let ?st = "docs_run evs (ngOnInit ls DocumentListComponent_new)"
    have inv: "documents ?st = [] \<and> (0 \<in> set (loading ?st) \<or> \<not> isLoading_docs ?st)"
      using quiet by (intro no_success_run) (simp_all add: init)
    have run: "docs_run (evs @ [Resolved 0 (Failure err)]) (ngOnInit ls DocumentListComponent_new)
        = docs_step ?st (Resolved 0 (Failure err))"
      by (simp add: docs_run_def)
    have "documents (docs_step ?st (Resolved 0 (Failure err))) = []"
      using inv a [of ?st 0] by simp
    moreover have "\<not> isLoading_docs (docs_step ?st (Resolved 0 (Failure err)))"
    proof (cases "0 \<in> set (loading ?st)")
      case True
      then show ?thesis using c [of 0 ?st] by blast
    next
      case False
      with inv have "\<not> isLoading_docs ?st" by blast
      with False show ?thesis by (simp add: refresh_error_def)
    qed
    ultimately show ?thesis unfolding run by blast
  qed
  from a b c d show ?thesis by blast
qed

theorem failed_fetch_keeps_documents_witness:
  "documents (docs_run
      [Tick,
       Resolved 1 (Success [\<lparr>filename = ''a.pdf'', path = ''docs/a.pdf'', last_modified = None\<rparr>]),
       Tick,
       Resolved 2 (Failure ''503'')]
      (ngOnInit [] DocumentListComponent_new))
   = [\<lparr>filename = ''a.pdf'', path = ''docs/a.pdf'', last_modified = None\<rparr>]
 \<and> isLoading_docs (docs_run
      [Tick,
       Resolved 1 (Success [\<lparr>filename = ''a.pdf'', path = ''docs/a.pdf'', last_modified = None\<rparr>]),
       Tick,
       Resolved 2 (Failure ''503'')]
      (ngOnInit [] DocumentListComponent_new))
 \<and> \<not> isLoading_docs (docs_run [Tick, Resolved 1 (Failure ''503''), Resolved 0 (Failure ''timeout'')]
        (ngOnInit [] DocumentListComponent_new))
 \<and> documents (docs_run [Tick, Resolved 1 (Failure ''503''), Resolved 0 (Failure ''timeout'')]
        (ngOnInit [] DocumentListComponent_new)) = []"
  using failed_fetch_keeps_documents
    [of "docs_run
      [Tick,
       Resolved 1 (Success [\<lparr>filename = ''a.pdf'', path = ''docs/a.pdf'', last_modified = None\<rparr>]),
       Tick] (ngOnInit [] DocumentListComponent_new)" 2 "''503''" "[]" "[]"]
    failed_fetch_keeps_documents
    [of "docs_run [Tick, Resolved 1 (Failure ''503'')] (ngOnInit [] DocumentListComponent_new)"
        0 "''timeout''" "[Tick, Resolved 1 (Failure ''503'')]" "[]"]
  by (simp add: docs_run_def ngOnInit_def loadDocuments_def getDocuments_def
      loadLocalStorageItems_def DocumentListComponent_new_def refresh_next_def refresh_error_def)

text \<open>
  Claim C7, as stated, fails when the initial call fails late: a refresh that succeeded
  in the meantime has replaced the documents, and the failure of the initial call leaves
  them in place.
\<close>

theorem late_initial_failure_keeps_refreshed_documents:
  "documents (docs_run
      [Tick,
       Resolved 1 (Success [\<lparr>filename = ''a.pdf'', path = ''docs/a.pdf'', last_modified = None\<rparr>]),
       Resolved 0 (Failure ''timeout'')]
      (ngOnInit [] DocumentListComponent_new))
   = [\<lparr>filename = ''a.pdf'', path = ''docs/a.pdf'', last_modified = None\<rparr>]"
  by (simp add: docs_run_def ngOnInit_def loadDocuments_def getDocuments_def
      loadLocalStorageItems_def DocumentListComponent_new_def refresh_next_def
      loadDocuments_error_def)

end
